theory Spec2Isabelle
  imports Main "HOL-Library.Word"
begin

unbundle bit_operations_syntax

section \<open>Scoped handles: \<open>AutoClosedFileBase\<close> (file_table.h, lines 63-127)\<close>

text \<open>
  A C++ pointer is an address or \<open>nullptr\<close>: \<open>nat option\<close>, with \<open>None\<close> for
  \<open>nullptr\<close>. The class has exactly the two pointer members \<open>m_ft\<close> and \<open>m_fb\<close>.
\<close>

type_synonym ft_ptr = "nat option"
type_synonym fb_ptr = "nat option"

record AutoClosedFileBase =
  m_ft :: ft_ptr
  m_fb :: fb_ptr

text \<open>
  One entry of the trace of \<open>FileTable::close\<close> calls made through handles: the table
  the call went to, the file object passed, and whether the call threw.
\<close>

datatype close_call = CloseCall (cc_table: nat) (cc_file: nat) (cc_threw: bool)

datatype lock_event = Acquire nat | Release nat

text \<open>
  Handles are C++ objects that are passed by reference and compared by address
  (\<open>this == &other\<close>), so they live in a store indexed by address. The registry behind
  the \<open>FileTable*\<close> pointers is kept abstract (type \<open>'w\<close>); \<open>closes\<close> records every
  \<open>m_ft->close(m_fb)\<close> call. \<open>held\<close> is the state of the intrinsic mutex of the file object
  at each address and \<open>lock_log\<close> the trace of lock and unlock calls on these mutexes.
\<close>

record 'w world =
  handles :: "nat \<Rightarrow> AutoClosedFileBase"
  registry :: 'w
  closes :: "close_call list"
  held :: "nat \<Rightarrow> bool"
  lock_log :: "lock_event list"

text \<open>
  \<open>FileTable::close\<close> is only declared in the header (line 55, not \<open>noexcept\<close>); its
  body is a parameter of the handle operations: given the table address, the file object
  address and the registry state it either throws (\<open>Inl e\<close>) or returns, and it may change
  the registry state either way.
\<close>

type_synonym ('w, 'e) close_fn = "nat \<Rightarrow> nat \<Rightarrow> 'w \<Rightarrow> ('e + unit) \<times> 'w"

definition call_close :: "('w, 'e) close_fn \<Rightarrow> nat \<Rightarrow> nat \<Rightarrow> 'w world \<Rightarrow> ('e + unit) \<times> 'w world" where
  "call_close cl ft fb s =
     (let r = cl ft fb (registry s)
      in (fst r, s\<lparr>registry := snd r, closes := closes s @ [CloseCall ft fb (isl (fst r))]\<rparr>))"

definition null_handle :: AutoClosedFileBase where
  "null_handle = \<lparr>m_ft = None, m_fb = None\<rparr>"

text \<open>\<open>explicit AutoClosedFileBase(FileTable* ft, FileBase* fb) : m_ft(ft), m_fb(fb) {}\<close>\<close>

definition ctor :: "nat \<Rightarrow> ft_ptr \<Rightarrow> fb_ptr \<Rightarrow> 'w world \<Rightarrow> 'w world" where
  "ctor this ft fb s = s\<lparr>handles := (handles s)(this := \<lparr>m_ft = ft, m_fb = fb\<rparr>)\<rparr>"

text \<open>
  The move constructor (lines 75-79): the new handle at \<open>this\<close> is initialised from
  \<open>other\<close>, then both members of \<open>other\<close> are set to \<open>nullptr\<close>.
\<close>

definition move_ctor :: "nat \<Rightarrow> nat \<Rightarrow> 'w world \<Rightarrow> 'w world" where
  "move_ctor this other s =
     (let s1 = s\<lparr>handles := (handles s)(this :=
                  \<lparr>m_ft = m_ft (handles s other), m_fb = m_fb (handles s other)\<rparr>)\<rparr>;
          s2 = s1\<lparr>handles := (handles s1)(other := (handles s1 other)\<lparr>m_ft := None\<rparr>)\<rparr>;
          s3 = s2\<lparr>handles := (handles s2)(other := (handles s2 other)\<lparr>m_fb := None\<rparr>)\<rparr>
      in s3)"

text \<open>
  \<open>swap\<close> (lines 122-126) is two \<open>std::swap\<close> calls, one per member; each is written
  out as the three assignments through a temporary.
\<close>

definition swap_m_ft :: "nat \<Rightarrow> nat \<Rightarrow> 'w world \<Rightarrow> 'w world" where
  "swap_m_ft this other s =
     (let tmp = m_ft (handles s this);
          s1 = s\<lparr>handles := (handles s)(this := (handles s this)\<lparr>m_ft := m_ft (handles s other)\<rparr>)\<rparr>
      in s1\<lparr>handles := (handles s1)(other := (handles s1 other)\<lparr>m_ft := tmp\<rparr>)\<rparr>)"

definition swap_m_fb :: "nat \<Rightarrow> nat \<Rightarrow> 'w world \<Rightarrow> 'w world" where
  "swap_m_fb this other s =
     (let tmp = m_fb (handles s this);
          s1 = s\<lparr>handles := (handles s)(this := (handles s this)\<lparr>m_fb := m_fb (handles s other)\<rparr>)\<rparr>
      in s1\<lparr>handles := (handles s1)(other := (handles s1 other)\<lparr>m_fb := tmp\<rparr>)\<rparr>)"

definition swap :: "nat \<Rightarrow> nat \<Rightarrow> 'w world \<Rightarrow> 'w world" where
  "swap this other s = swap_m_fb this other (swap_m_ft this other s)"

text \<open>Move assignment (lines 81-87): nothing on self-assignment, otherwise \<open>swap\<close>.\<close>

definition move_assign :: "nat \<Rightarrow> nat \<Rightarrow> 'w world \<Rightarrow> 'w world" where
  "move_assign this other s = (if this = other then s else swap this other s)"

definition get :: "nat \<Rightarrow> 'w world \<Rightarrow> fb_ptr" where
  "get this s = m_fb (handles s this)"

text \<open>\<open>release\<close> (lines 108-113): returns the old \<open>m_fb\<close> and sets it to \<open>nullptr\<close>.\<close>

definition release :: "nat \<Rightarrow> 'w world \<Rightarrow> fb_ptr \<times> 'w world" where
  "release this s =
     (let rt = m_fb (handles s this)
      in (rt, s\<lparr>handles := (handles s)(this := (handles s this)\<lparr>m_fb := None\<rparr>)\<rparr>))"

text \<open>
  \<open>reset\<close> (lines 114-121): when both pointers are non-null it calls
  \<open>m_ft->close(m_fb)\<close>; an exception leaves the function there, before the assignment
  \<open>m_fb = fb\<close>.
\<close>

definition reset :: "('w, 'e) close_fn \<Rightarrow> nat \<Rightarrow> fb_ptr \<Rightarrow> 'w world \<Rightarrow> ('e + unit) \<times> 'w world" where
  "reset cl this fb s =
     (case (m_ft (handles s this), m_fb (handles s this)) of
        (Some t, Some f) \<Rightarrow>
          (case call_close cl t f s of
             (Inl e, s1) \<Rightarrow> (Inl e, s1)
           | (Inr u, s1) \<Rightarrow>
               (Inr (), s1\<lparr>handles := (handles s1)(this := (handles s1 this)\<lparr>m_fb := fb\<rparr>)\<rparr>))
      | _ \<Rightarrow> (Inr (), s\<lparr>handles := (handles s)(this := (handles s this)\<lparr>m_fb := fb\<rparr>)\<rparr>))"

text \<open>
  The destructor (lines 89-98): \<open>try { reset(nullptr); } catch (...) { }\<close>. The
  \<open>try\<close> block is a computation that may end in \<open>Inl e\<close>; the empty handler turns every
  such end into a normal one.
\<close>

definition catch_all :: "('e + unit) \<times> 's \<Rightarrow> ('e + unit) \<times> 's" where
  "catch_all r = (case r of (Inl e, s) \<Rightarrow> (Inr (), s) | (Inr u, s) \<Rightarrow> (Inr u, s))"

definition dtor :: "('w, 'e) close_fn \<Rightarrow> nat \<Rightarrow> 'w world \<Rightarrow> ('e + unit) \<times> 'w world" where
  "dtor cl this s = catch_all (reset cl this None s)"

text \<open>
  A handle exercised through any number of \<open>reset\<close> calls and drops. A \<open>reset\<close> that
  throws is caught by the caller here, so that every later path can still be taken.
\<close>

datatype handle_op = Reset fb_ptr | Drop

fun exercise :: "('w, 'e) close_fn \<Rightarrow> nat \<Rightarrow> handle_op list \<Rightarrow> 'w world \<Rightarrow> 'w world" where
  "exercise cl this [] s = s"
| "exercise cl this (Reset fb # ops) s = exercise cl this ops (snd (reset cl this fb s))"
| "exercise cl this (Drop # ops) s = exercise cl this ops (snd (dtor cl this s))"

text \<open>Concrete inputs: a close that fails while the registry's counter is positive.\<close>

definition flaky_close :: "(nat, string) close_fn" where
  "flaky_close ft fb w = (if 0 < w then (Inl ''flush failed'', w - 1) else (Inr (), w))"

definition steady_close :: "(nat, string) close_fn" where
  "steady_close ft fb w = (Inr (), w)"

definition world0 :: "nat \<Rightarrow> nat world" where
  "world0 w = \<lparr>handles = (\<lambda>a. null_handle), registry = w, closes = [],
               held = (\<lambda>a. False), lock_log = []\<rparr>"

text \<open>Handle 0 holds object 7 and handle 1 holds object 8, both of the table at 1.\<close>

definition world2 :: "nat \<Rightarrow> nat world" where
  "world2 w = ctor 1 (Some 1) (Some 8) (ctor 0 (Some 1) (Some 7) (world0 w))"

section \<open>Lock scopes: \<open>AutoClosedFileLockGuard\<close> (file_table.h, lines 129-146)\<close>

text \<open>
  The outcomes of a guard operation that are not a normal return: dereferencing a null
  pointer, and waiting for a mutex that is held.
\<close>

datatype fault = NullDereference | WouldBlock

text \<open>
  Modelled from the spec: the \<open>Mutex\<close> class (mutex.h) and \<open>FileBase::mutex()\<close>
  (files.h) are missing. The spec gives every File Object one intrinsic exclusive lock:
  a flag per object address. \<open>lock\<close> on a free mutex takes it; on a held mutex the
  caller would wait, which in this sequential model is the outcome \<open>WouldBlock\<close>.
  \<open>unlock\<close> frees the mutex. Both leave an event in \<open>lock_log\<close>.
\<close>

definition mutex_lock :: "nat \<Rightarrow> 'w world \<Rightarrow> fault + 'w world" where
  "mutex_lock ob s =
     (if held s ob then Inl WouldBlock
      else Inr (s\<lparr>held := (held s)(ob := True), lock_log := lock_log s @ [Acquire ob]\<rparr>))"

text \<open>Modelled from the spec: \<open>Mutex::unlock\<close> (mutex.h is missing), see above.\<close>

definition mutex_unlock :: "nat \<Rightarrow> 'w world \<Rightarrow> 'w world" where
  "mutex_unlock ob s = s\<lparr>held := (held s)(ob := False), lock_log := lock_log s @ [Release ob]\<rparr>"

text \<open>
  The guard keeps \<open>fp\<close>, a pointer to the handle (not to the file object). Its
  constructor runs \<open>fp->get()->mutex().lock()\<close>, its destructor
  \<open>fp->get()->mutex().unlock()\<close>: each reads the handle's \<open>m_fb\<close> at the moment it runs.
  Dereferencing a null \<open>m_fb\<close> is the outcome \<open>NullDereference\<close>.
\<close>

record AutoClosedFileLockGuard =
  fp :: nat

definition guard_ctor :: "nat \<Rightarrow> 'w world \<Rightarrow> fault + (AutoClosedFileLockGuard \<times> 'w world)" where
  "guard_ctor filebase s =
     (let g = \<lparr>fp = filebase\<rparr>
      in case get (fp g) s of
           None \<Rightarrow> Inl NullDereference
         | Some ob \<Rightarrow> (case mutex_lock ob s of Inl e \<Rightarrow> Inl e | Inr s1 \<Rightarrow> Inr (g, s1)))"

definition guard_dtor :: "AutoClosedFileLockGuard \<Rightarrow> 'w world \<Rightarrow> fault + 'w world" where
  "guard_dtor g s =
     (case get (fp g) s of
        None \<Rightarrow> Inl NullDereference
      | Some ob \<Rightarrow> Inr (mutex_unlock ob s))"

text \<open>
  A scope guarded by \<open>AutoClosedFileLockGuard lg(filebase)\<close>: the constructor, the body,
  and the destructor, which C++ runs however the body leaves the scope: by reaching its
  end, by \<open>return\<close>, or by an exception. The body has the handle by reference, so it is
  any function of the whole state.
\<close>

datatype 'e scope_exit = FallThrough | EarlyReturn | Thrown 'e

definition lock_scope ::
  "nat \<Rightarrow> ('w world \<Rightarrow> 'e scope_exit \<times> 'w world) \<Rightarrow> 'w world \<Rightarrow> fault + ('e scope_exit \<times> 'w world)" where
  "lock_scope filebase body s =
     (case guard_ctor filebase s of
        Inl e \<Rightarrow> Inl e
      | Inr (g, s1) \<Rightarrow>
          (case body s1 of
             (x, s2) \<Rightarrow> (case guard_dtor g s2 of Inl e \<Rightarrow> Inl e | Inr s3 \<Rightarrow> Inr (x, s3))))"

text \<open>
  Concrete bodies: one that leaves the handle alone, one that swaps it with handle 1, and
  one that calls \<open>release\<close> on it.
\<close>

definition body_keep :: "string scope_exit \<Rightarrow> nat world \<Rightarrow> string scope_exit \<times> nat world" where
  "body_keep x s = (x, s)"

definition body_swap :: "nat world \<Rightarrow> string scope_exit \<times> nat world" where
  "body_swap s = (FallThrough, swap 0 1 s)"

definition body_release :: "nat world \<Rightarrow> string scope_exit \<times> nat world" where
  "body_release s = (FallThrough, snd (release 0 s))"

section \<open>The registry: \<open>FileTable\<close> (file_table.h, lines 21-61)\<close>

text \<open>
  Modelled from the spec: \<open>FileBase\<close> (files.h) is missing. The spec gives a File Object
  an identifier, a concrete type tag and a reference count; \<open>fb_addr\<close> is the address
  that a \<open>FileBase*\<close> holds. The type tag is the \<open>int type\<close> of \<open>open_as\<close> and
  \<open>create_as\<close>. The identifier type \<open>id_type\<close> (constants.h) is the parameter \<open>'id\<close>.
\<close>

record 'id FileBase =
  fb_id :: 'id
  fb_type :: int
  fb_addr :: nat
  fb_refcount :: nat

text \<open>
  The data members of \<open>FileTable\<close>, without the collaborators \<open>m_lock\<close>, \<open>m_fio\<close> and
  \<open>m_root\<close>. \<open>m_flags\<close> is \<open>const uint32_t\<close>, the two sizes are \<open>const unsigned\<close>.
\<close>

record 'id FileTable =
  m_master_key :: "8 word list"
  m_files :: "'id \<rightharpoonup> 'id FileBase"
  m_closed_ids :: "'id list"
  m_flags :: "32 word"
  m_block_size :: "32 word"
  m_iv_size :: "32 word"

definition MAX_NUM_CLOSED :: nat where
  "MAX_NUM_CLOSED = 101"

definition NUM_EJECT :: nat where
  "NUM_EJECT = 8"

text \<open>
  The option masks \<open>kOptionReadOnly\<close>, \<open>kOptionNoAuthentication\<close> and
  \<open>kOptionStoreTime\<close> are declared in constants.h, which is missing: they are parameters.
\<close>

record option_masks =
  kOptionReadOnly :: "32 word"
  kOptionNoAuthentication :: "32 word"
  kOptionStoreTime :: "32 word"

definition is_readonly :: "option_masks \<Rightarrow> ('id, 'z) FileTable_scheme \<Rightarrow> bool" where
  "is_readonly K ft = (m_flags ft AND kOptionReadOnly K \<noteq> 0)"

definition is_auth_enabled :: "option_masks \<Rightarrow> ('id, 'z) FileTable_scheme \<Rightarrow> bool" where
  "is_auth_enabled K ft = (m_flags ft AND kOptionNoAuthentication K = 0)"

definition is_time_stored :: "option_masks \<Rightarrow> ('id, 'z) FileTable_scheme \<Rightarrow> bool" where
  "is_time_stored K ft = (m_flags ft AND kOptionStoreTime K \<noteq> 0)"

text \<open>Concrete inputs: one-bit masks, and a table whose flags have bits 1 and 2 set.\<close>

definition masks0 :: option_masks where
  "masks0 = \<lparr>kOptionReadOnly = push_bit 1 1, kOptionNoAuthentication = push_bit 0 1,
             kOptionStoreTime = push_bit 2 1\<rparr>"

definition flag_table :: "32 word \<Rightarrow> nat list \<Rightarrow> nat FileTable" where
  "flag_table fl ids = \<lparr>m_master_key = [], m_files = Map.empty, m_closed_ids = ids,
                        m_flags = fl, m_block_size = 4096, m_iv_size = 12\<rparr>"

subsection \<open>The registry operations\<close>

text \<open>
  The bodies of \<open>FileTable::open_as\<close>, \<open>create_as\<close>, \<open>close\<close>, \<open>eject\<close>,
  \<open>finalize\<close> and of the constructor are in file_table.cpp, which is missing; the header
  only declares them. Each of them is modelled from the spec below: section 4.1
  (open_or_create, close, eviction), the collaborator interfaces of section 6 and the
  error taxonomy of section 7.
\<close>

text \<open>
  Modelled from the spec: the failures of the registry (section 7). \<open>FlushError\<close> is not
  among them: it goes to a diagnostic channel and is not returned to a caller.
\<close>

datatype reg_error = NotFound | TypeMismatch | AlreadyExists | BackendError string | HandleMisuse

text \<open>
  Modelled from the spec: the registry state that the missing bodies work on is the
  table together with the trace of the Persister's finalize calls and the diagnostics of
  failed flushes.
\<close>

record 'id traced_table = "'id FileTable" +
  finalized :: "'id list"
  flush_errors :: "'id list"

text \<open>
  Modelled from the spec: the Constructor and Persister collaborators (section 6) are
  parameters. \<open>materialize\<close> takes the identifier, the declared type and the create flag
  and returns a File Object or a failure; \<open>finalize\<close> returns whether the flush succeeded.
\<close>

type_synonym 'id materialize_fn = "'id \<Rightarrow> int \<Rightarrow> bool \<Rightarrow> reg_error + 'id FileBase"
type_synonym 'id finalize_fn = "'id FileBase \<Rightarrow> bool"

text \<open>
  Modelled from the spec: the constructor (declared at lines 46-51, body missing) fixes
  the configuration and starts with an empty table and an empty idle sequence.
\<close>

definition new_table :: "8 word list \<Rightarrow> 32 word \<Rightarrow> 32 word \<Rightarrow> 32 word \<Rightarrow> 'id traced_table" where
  "new_table master_key flags block_size iv_size =
     \<lparr>m_master_key = master_key, m_files = Map.empty, m_closed_ids = [], m_flags = flags,
      m_block_size = block_size, m_iv_size = iv_size, finalized = [], flush_errors = []\<rparr>"

text \<open>
  Modelled from the spec: open_or_create, for the missing bodies of \<open>FileTable::open_as\<close>
  and \<open>FileTable::create_as\<close>. A resident object of another type is refused before
  anything is changed (\<open>TypeMismatch\<close>, or the \<open>AlreadyExists\<close> condition when create is
  set); a resident object of the declared type is taken off the idle sequence and its
  count incremented; an identifier that is not resident is materialized and inserted
  with count 1, and a failure of the Constructor is returned as it is.
\<close>

definition open_or_create ::
  "'id materialize_fn \<Rightarrow> 'id traced_table \<Rightarrow> 'id \<Rightarrow> int \<Rightarrow> bool
   \<Rightarrow> (reg_error + fb_ptr) \<times> 'id traced_table" where
  "open_or_create materialize ft i declared_type create =
     (case m_files ft i of
        Some fb \<Rightarrow>
          if fb_type fb \<noteq> declared_type
          then (Inl (if create then AlreadyExists else TypeMismatch), ft)
          else (Inr (Some (fb_addr fb)),
                ft\<lparr>m_closed_ids := remove1 i (m_closed_ids ft),
                   m_files := (m_files ft)(i \<mapsto> fb\<lparr>fb_refcount := fb_refcount fb + 1\<rparr>)\<rparr>)
      | None \<Rightarrow>
          (case materialize i declared_type create of
             Inl e \<Rightarrow> (Inl e, ft)
           | Inr fb \<Rightarrow>
               (Inr (Some (fb_addr fb)),
                ft\<lparr>m_files := (m_files ft)(i \<mapsto> fb\<lparr>fb_refcount := 1\<rparr>)\<rparr>)))"

text \<open>
  Modelled from the spec: \<open>FileTable::open_as\<close> (line 53) is open_or_create without
  create, \<open>FileTable::create_as\<close> (line 54) is open_or_create with create.
\<close>

definition FileTable_open_as ::
  "'id materialize_fn \<Rightarrow> 'id traced_table \<Rightarrow> 'id \<Rightarrow> int
   \<Rightarrow> (reg_error + fb_ptr) \<times> 'id traced_table" where
  "FileTable_open_as materialize ft i ty = open_or_create materialize ft i ty False"

definition FileTable_create_as ::
  "'id materialize_fn \<Rightarrow> 'id traced_table \<Rightarrow> 'id \<Rightarrow> int
   \<Rightarrow> (reg_error + fb_ptr) \<times> 'id traced_table" where
  "FileTable_create_as materialize ft i ty = open_or_create materialize ft i ty True"

text \<open>
  The free functions \<open>open_as\<close> and \<open>create_as\<close> (lines 170-178) are in the header:
  \<open>return AutoClosedFileBase(&table, table.open_as(id, type))\<close>. There is no handler, so
  an exception of the member function leaves the free function as it is and no handle
  is built.
\<close>

definition open_as ::
  "'id materialize_fn \<Rightarrow> nat \<Rightarrow> 'id traced_table \<Rightarrow> 'id \<Rightarrow> int
   \<Rightarrow> (reg_error + AutoClosedFileBase) \<times> 'id traced_table" where
  "open_as materialize table ft i ty =
     (case FileTable_open_as materialize ft i ty of
        (Inl e, ft1) \<Rightarrow> (Inl e, ft1)
      | (Inr p, ft1) \<Rightarrow> (Inr \<lparr>m_ft = Some table, m_fb = p\<rparr>, ft1))"

definition create_as ::
  "'id materialize_fn \<Rightarrow> nat \<Rightarrow> 'id traced_table \<Rightarrow> 'id \<Rightarrow> int
   \<Rightarrow> (reg_error + AutoClosedFileBase) \<times> 'id traced_table" where
  "create_as materialize table ft i ty =
     (case FileTable_create_as materialize ft i ty of
        (Inl e, ft1) \<Rightarrow> (Inl e, ft1)
      | (Inr p, ft1) \<Rightarrow> (Inr \<lparr>m_ft = Some table, m_fb = p\<rparr>, ft1))"

text \<open>
  Modelled from the spec: eviction of one idle identifier, for the missing bodies of
  \<open>FileTable::eject\<close> and \<open>FileTable::finalize\<close>. The object is removed from the table
  and the Persister is called; a failed flush is reported and the object is destroyed
  all the same.
\<close>

definition evict_one :: "'id finalize_fn \<Rightarrow> 'id \<Rightarrow> 'id traced_table \<Rightarrow> 'id traced_table" where
  "evict_one finalize i ft =
     (case m_files ft i of
        None \<Rightarrow> ft
      | Some fb \<Rightarrow>
          ft\<lparr>m_files := (m_files ft)(i := None),
             finalized := finalized ft @ [i],
             flush_errors := (if finalize fb then flush_errors ft else flush_errors ft @ [i])\<rparr>)"

fun evict_all :: "'id finalize_fn \<Rightarrow> 'id list \<Rightarrow> 'id traced_table \<Rightarrow> 'id traced_table" where
  "evict_all finalize [] ft = ft"
| "evict_all finalize (i # is) ft = evict_all finalize is (evict_one finalize i ft)"

text \<open>
  Modelled from the spec: \<open>FileTable::eject\<close> (line 42, body missing) evicts the oldest
  \<open>NUM_EJECT\<close> idle identifiers, or all of them if there are fewer.
\<close>

definition eject :: "'id finalize_fn \<Rightarrow> 'id traced_table \<Rightarrow> 'id traced_table" where
  "eject finalize ft =
     (let n = min NUM_EJECT (length (m_closed_ids ft));
          victims = take n (m_closed_ids ft)
      in evict_all finalize victims (ft\<lparr>m_closed_ids := drop n (m_closed_ids ft)\<rparr>))"

text \<open>
  Modelled from the spec: \<open>FileTable::close\<close> (line 55, body missing). The reference is
  resolved to the identifier of the object it points to. Closing an object that is not
  resident or has no outstanding reference is handle misuse and changes nothing.
  Otherwise the count is decremented; at zero the identifier goes to the tail of the idle
  sequence, and an idle sequence longer than \<open>MAX_NUM_CLOSED\<close> is ejected.
\<close>

definition close ::
  "'id finalize_fn \<Rightarrow> 'id traced_table \<Rightarrow> 'id \<Rightarrow> (reg_error + unit) \<times> 'id traced_table" where
  "close finalize ft i =
     (case m_files ft i of
        None \<Rightarrow> (Inl HandleMisuse, ft)
      | Some fb \<Rightarrow>
          if fb_refcount fb = 0 then (Inl HandleMisuse, ft)
          else
            let ft1 = ft\<lparr>m_files := (m_files ft)(i \<mapsto> fb\<lparr>fb_refcount := fb_refcount fb - 1\<rparr>)\<rparr>
            in if 0 < fb_refcount fb - 1 then (Inr (), ft1)
               else
                 let ft2 = ft1\<lparr>m_closed_ids := m_closed_ids ft1 @ [i]\<rparr>
                 in if MAX_NUM_CLOSED < length (m_closed_ids ft2)
                    then (Inr (), eject finalize ft2)
                    else (Inr (), ft2))"

text \<open>Any sequence of registry calls; a failed call is reported to its caller and the
  registry carries on.\<close>

datatype 'id reg_op = OpOpen 'id int bool | OpClose 'id

fun reg_step ::
  "'id materialize_fn \<Rightarrow> 'id finalize_fn \<Rightarrow> 'id reg_op \<Rightarrow> 'id traced_table \<Rightarrow> 'id traced_table" where
  "reg_step materialize finalize (OpOpen i ty c) ft = snd (open_or_create materialize ft i ty c)"
| "reg_step materialize finalize (OpClose i) ft =
     snd (close finalize ft i)"

fun run_ops ::
  "'id materialize_fn \<Rightarrow> 'id finalize_fn \<Rightarrow> 'id reg_op list \<Rightarrow> 'id traced_table \<Rightarrow> 'id traced_table" where
  "run_ops materialize finalize [] ft = ft"
| "run_ops materialize finalize (x # xs) ft =
     run_ops materialize finalize xs (reg_step materialize finalize x ft)"

text \<open>
  The well-formedness of a registry state: idle identifiers are distinct and are exactly
  the resident objects with no outstanding reference, and at most \<open>MAX_NUM_CLOSED\<close> are
  idle.
\<close>

definition idle_ok :: "'id traced_table \<Rightarrow> bool" where
  "idle_ok ft \<longleftrightarrow>
     distinct (m_closed_ids ft) \<and>
     (\<forall>i. i \<in> set (m_closed_ids ft) \<longleftrightarrow> (\<exists>fb. m_files ft i = Some fb \<and> fb_refcount fb = 0))"

definition table_inv :: "'id traced_table \<Rightarrow> bool" where
  "table_inv ft \<longleftrightarrow> idle_ok ft \<and> length (m_closed_ids ft) \<le> MAX_NUM_CLOSED"

text \<open>
  Concrete inputs: a registry over identifiers \<open>0..n\<close> in which \<open>0..n-1\<close> are idle, oldest
  first, and \<open>n\<close> is active with one reference; a Persister whose flush always succeeds;
  a Constructor that finds nothing, and one that builds the object asked for.
\<close>

definition idle_table :: "nat \<Rightarrow> nat traced_table" where
  "idle_table n =
     \<lparr>m_master_key = [], 
      m_files = (\<lambda>i. if i \<le> n then Some \<lparr>fb_id = i, fb_type = 0, fb_addr = i,
                                         fb_refcount = (if i < n then 0 else 1)\<rparr> else None),
      m_closed_ids = [0..<n], m_flags = 0, m_block_size = 4096, m_iv_size = 12,
      finalized = [], flush_errors = []\<rparr>"

definition finalize_ok :: "nat finalize_fn" where
  "finalize_ok fb = True"

definition materialize_none :: "nat materialize_fn" where
  "materialize_none i ty create = Inl NotFound"

definition materialize_any :: "nat materialize_fn" where
  "materialize_any i ty create = Inr \<lparr>fb_id = i, fb_type = ty, fb_addr = i, fb_refcount = 0\<rparr>"

definition materialize_broken :: "nat materialize_fn" where
  "materialize_broken i ty create = Inl (BackendError ''read failed'')"

section \<open>Properties of scoped handles\<close>

subsection \<open>What each operation does to the store\<close>

lemma handles_swap:
  "handles (swap this other s) = (handles s)(this := handles s other, other := handles s this)"
  by (auto simp: swap_def swap_m_ft_def swap_m_fb_def Let_def fun_eq_iff)

lemma swap_frame:
  "registry (swap this other s) = registry s" "closes (swap this other s) = closes s"
  "held (swap this other s) = held s" "lock_log (swap this other s) = lock_log s"
  by (simp_all add: swap_def swap_m_ft_def swap_m_fb_def Let_def)

lemma handles_move_assign:
  "handles (move_assign this other s) = (handles s)(this := handles s other, other := handles s this)"
  by (auto simp: move_assign_def handles_swap fun_eq_iff)

lemma move_assign_frame:
  "registry (move_assign this other s) = registry s" "closes (move_assign this other s) = closes s"
  "held (move_assign this other s) = held s" "lock_log (move_assign this other s) = lock_log s"
  by (simp_all add: move_assign_def swap_frame)

lemma handles_move_ctor:
  "handles (move_ctor this other s) = (handles s)(this := handles s other, other := null_handle)"
  by (auto simp: move_ctor_def Let_def fun_eq_iff null_handle_def)

lemma move_ctor_frame:
  "registry (move_ctor this other s) = registry s" "closes (move_ctor this other s) = closes s"
  by (simp_all add: move_ctor_def Let_def)

lemma reset_no_close:
  "m_ft (handles s this) = None \<or> m_fb (handles s this) = None \<Longrightarrow>
   reset cl this fb s = (Inr (), s\<lparr>handles := (handles s)(this := (handles s this)\<lparr>m_fb := fb\<rparr>)\<rparr>)"
  by (auto simp: reset_def split: option.splits)

lemma reset_holding:
  "m_ft (handles s this) = Some t \<Longrightarrow> m_fb (handles s this) = Some f \<Longrightarrow>
   reset cl this fb s =
     (case cl t f (registry s) of
        (Inl e, w) \<Rightarrow> (Inl e, s\<lparr>registry := w, closes := closes s @ [CloseCall t f True]\<rparr>)
      | (Inr u, w) \<Rightarrow> (Inr (), s\<lparr>registry := w, closes := closes s @ [CloseCall t f False],
                                handles := (handles s)(this := (handles s this)\<lparr>m_fb := fb\<rparr>)\<rparr>))"
  by (auto simp: reset_def call_close_def Let_def split: prod.splits sum.splits)

lemma dtor_no_close:
  "m_ft (handles s this) = None \<or> m_fb (handles s this) = None \<Longrightarrow>
   dtor cl this s = (Inr (), s\<lparr>handles := (handles s)(this := (handles s this)\<lparr>m_fb := None\<rparr>)\<rparr>)"
  by (simp add: dtor_def catch_all_def reset_no_close)

lemma dtor_holding:
  "m_ft (handles s this) = Some t \<Longrightarrow> m_fb (handles s this) = Some f \<Longrightarrow>
   dtor cl this s =
     (case cl t f (registry s) of
        (Inl e, w) \<Rightarrow> (Inr (), s\<lparr>registry := w, closes := closes s @ [CloseCall t f True]\<rparr>)
      | (Inr u, w) \<Rightarrow> (Inr (), s\<lparr>registry := w, closes := closes s @ [CloseCall t f False],
                                handles := (handles s)(this := (handles s this)\<lparr>m_fb := None\<rparr>)\<rparr>))"
  by (auto simp: dtor_def catch_all_def reset_holding split: prod.splits sum.splits)

text \<open>An emptied handle stays empty and silent under resets to empty and drops.\<close>

lemma exercise_emptied:
  "m_fb (handles s this) = None \<Longrightarrow> \<forall>op\<in>set ops. op = Reset None \<or> op = Drop \<Longrightarrow>
   closes (exercise cl this ops s) = closes s \<and> registry (exercise cl this ops s) = registry s"
proof (induction ops arbitrary: s)
  case Nil
  then show ?case by simp
next
  case (Cons op ops)
  let ?s1 = "s\<lparr>handles := (handles s)(this := (handles s this)\<lparr>m_fb := None\<rparr>)\<rparr>"
  have step: "snd (reset cl this None s) = ?s1" "snd (dtor cl this s) = ?s1"
    using Cons.prems(1) by (simp_all add: reset_no_close dtor_no_close)
  have rest: "closes (exercise cl this ops ?s1) = closes ?s1 \<and>
              registry (exercise cl this ops ?s1) = registry ?s1"
    using Cons.prems(2) by (intro Cons.IH) simp_all
  from Cons.prems(2) have "op = Reset None \<or> op = Drop" by simp
  then show ?case using step rest by auto
qed

text \<open>As far as the state goes, a reset to empty and a drop are the same step.\<close>

lemma exercise_step_empty_ops:
  "op = Reset None \<or> op = Drop \<Longrightarrow>
   exercise cl this (op # ops) s = exercise cl this ops (snd (dtor cl this s))"
  by (auto simp: dtor_def catch_all_def split: prod.splits sum.splits)

subsection \<open>Moves\<close>

text \<open>
  Claim C1, as amended. Move construction leaves both pointers of the source null, so
  dropping the source calls no close and leaves the registry alone. Move assignment
  swaps the two handles (and does nothing when both are the same handle): afterwards the
  source holds what the destination held before, so it is null, and its drop silent,
  when the destination was empty.
\<close>

theorem scoped_handle_move_nulls_source:
  "handles (move_ctor this other s) other = null_handle \<and>
   closes (snd (dtor cl other (move_ctor this other s))) = closes s \<and>
   registry (snd (dtor cl other (move_ctor this other s))) = registry s \<and>
   handles (move_assign this other s) other = handles s this \<and>
   (handles s this = null_handle \<longrightarrow>
      handles (move_assign this other s) other = null_handle \<and>
      closes (snd (dtor cl other (move_assign this other s))) = closes s \<and>
      registry (snd (dtor cl other (move_assign this other s))) = registry s)"
  by (simp add: handles_move_ctor handles_move_assign dtor_no_close null_handle_def
      move_ctor_frame move_assign_frame)

theorem scoped_handle_move_nulls_source_witness:
  "handles (ctor 1 (Some 1) (Some 8) (world0 0)) 0 = null_handle \<and>
   handles (move_assign 0 1 (ctor 1 (Some 1) (Some 8) (world0 0))) 1 = null_handle \<and>
   closes (snd (dtor steady_close 1 (move_assign 0 1 (ctor 1 (Some 1) (Some 8) (world0 0))))) = []"
  using scoped_handle_move_nulls_source [of 0 1 "ctor 1 (Some 1) (Some 8) (world0 0)" steady_close]
  by (simp add: ctor_def world0_def)

text \<open>
  Claim C1 as stated fails for move assignment onto a handle that holds an object:
  handle 0 holds object 7 and handle 1 holds object 8; after \<open>h0 = std::move(h1)\<close> the
  source \<open>h1\<close> holds table 1 and object 7, and dropping it calls close on object 7.
\<close>

theorem move_assign_source_not_null_counterexample:
  "m_ft (handles (move_assign 0 1 (world2 0)) 1) = Some 1 \<and>
   m_fb (handles (move_assign 0 1 (world2 0)) 1) = Some 7 \<and>
   closes (snd (dtor steady_close 1 (move_assign 0 1 (world2 0)))) = [CloseCall 1 7 False]"
  by (simp add: handles_move_assign move_assign_frame dtor_holding [of _ _ 1 7]
      world2_def ctor_def world0_def steady_close_def)



subsection \<open>Drop, reset and release\<close>

text \<open>
  Claim C6. The destructor never ends in an exception, whatever \<open>FileTable::close\<close>
  does. When the handle holds an object and close throws, \<open>reset(nullptr)\<close> does
  propagate the exception; the destructor makes the same call and swallows it.
\<close>

theorem dtor_never_throws:
  "fst (dtor cl this s) = Inr () \<and>
   (handles s this = \<lparr>m_ft = Some t, m_fb = Some f\<rparr> \<and> fst (cl t f (registry s)) = Inl e \<longrightarrow>
      fst (reset cl this None s) = Inl e \<and>
      closes (snd (dtor cl this s)) = closes s @ [CloseCall t f True])"
proof -
  have a: "fst (dtor cl this s) = Inr ()"
    by (simp add: dtor_def catch_all_def split: prod.splits sum.splits)
  have b: "fst (reset cl this None s) = Inl e \<and>
           closes (snd (dtor cl this s)) = closes s @ [CloseCall t f True]"
    if h: "handles s this = \<lparr>m_ft = Some t, m_fb = Some f\<rparr>" and c: "fst (cl t f (registry s)) = Inl e"
  proof -
    have ft: "m_ft (handles s this) = Some t" and fb: "m_fb (handles s this) = Some f"
      using h by simp_all
    show ?thesis using c
      by (auto simp: reset_holding [OF ft fb] dtor_holding [OF ft fb] split: prod.splits sum.splits)
  qed
  show ?thesis using a b by blast
qed

theorem dtor_never_throws_witness:
  "handles (world2 1) 0 = \<lparr>m_ft = Some 1, m_fb = Some 7\<rparr> \<and>
   fst (flaky_close 1 7 (registry (world2 1))) = Inl ''flush failed'' \<and>
   fst (reset flaky_close 0 None (world2 1)) = Inl ''flush failed'' \<and>
   fst (dtor flaky_close 0 (world2 1)) = Inr () \<and>
   closes (snd (dtor flaky_close 0 (world2 1))) = [CloseCall 1 7 True]"
  using dtor_never_throws [of flaky_close 0 "world2 1" 1 7 "''flush failed''"]
  by (simp add: world2_def ctor_def world0_def flaky_close_def)

text \<open>
  Claim C7. \<open>release\<close> returns the handle's object pointer, leaves that pointer null
  (and the table pointer as it was), makes no close call and does not touch the registry
  state; the drop of the handle after it makes no close call and does not touch the
  registry state either.
\<close>

theorem release_detaches_without_close:
  "fst (release this s) = m_fb (handles s this) \<and>
   m_fb (handles (snd (release this s)) this) = None \<and>
   m_ft (handles (snd (release this s)) this) = m_ft (handles s this) \<and>
   closes (snd (release this s)) = closes s \<and>
   registry (snd (release this s)) = registry s \<and>
   closes (snd (dtor cl this (snd (release this s)))) = closes s \<and>
   registry (snd (dtor cl this (snd (release this s)))) = registry s"
  by (simp add: release_def Let_def dtor_no_close)

text \<open>
  Claim C2, as amended. A handle holds object \<open>f\<close> of table \<open>t\<close> and goes through any
  sequence of resets to empty and drops. Every close call it makes is for \<open>f\<close> on \<open>t\<close>;
  the calls are some that threw, followed by at most one that returned, after which
  there is none. So when close does not throw, there is exactly one close call if
  the sequence is not empty, and none otherwise.
\<close>

theorem close_fires_once_if_it_returns:
  assumes hold: "handles s this = \<lparr>m_ft = Some t, m_fb = Some f\<rparr>"
      and ops: "\<forall>op\<in>set ops. op = Reset None \<or> op = Drop"
  shows "(\<exists>n k. k \<le> 1 \<and> closes (exercise cl this ops s)
            = closes s @ replicate n (CloseCall t f True) @ replicate k (CloseCall t f False)) \<and>
         ((\<forall>w. \<not> isl (fst (cl t f w))) \<longrightarrow>
            closes (exercise cl this ops s)
              = closes s @ (if ops = [] then [] else [CloseCall t f False]))"
  using hold ops
proof (induction ops arbitrary: s)
  case Nil
  have "(0::nat) \<le> 1 \<and> closes (exercise cl this [] s)
          = closes s @ replicate 0 (CloseCall t f True) @ replicate 0 (CloseCall t f False)"
    by simp
  then have "\<exists>n k. k \<le> 1 \<and> closes (exercise cl this [] s)
          = closes s @ replicate n (CloseCall t f True) @ replicate k (CloseCall t f False)"
    by blast
  then show ?case by simp
next
  case (Cons op ops)
  have op: "op = Reset None \<or> op = Drop" and rest: "\<forall>op\<in>set ops. op = Reset None \<or> op = Drop"
    using Cons.prems(2) by simp_all
  have ft: "m_ft (handles s this) = Some t" and fb: "m_fb (handles s this) = Some f"
    using Cons.prems(1) by simp_all
  let ?s1 = "snd (dtor cl this s)"
  have unfold: "exercise cl this (op # ops) s = exercise cl this ops ?s1"
    using op by (rule exercise_step_empty_ops)
  obtain r w where clr: "cl t f (registry s) = (r, w)" by (cases "cl t f (registry s)")
  show ?case
  proof (cases r)
    case (Inl e)
    have s1: "?s1 = s\<lparr>registry := w, closes := closes s @ [CloseCall t f True]\<rparr>"
      using clr Inl by (simp add: dtor_holding [OF ft fb])
    have h1: "handles ?s1 this = \<lparr>m_ft = Some t, m_fb = Some f\<rparr>"
      using Cons.prems(1) by (simp add: s1)
    from Cons.IH [OF h1 rest] obtain n k where
      nk: "k \<le> 1" "closes (exercise cl this ops ?s1)
            = closes ?s1 @ replicate n (CloseCall t f True) @ replicate k (CloseCall t f False)"
      by blast
    have "closes (exercise cl this (op # ops) s)
            = closes s @ replicate (Suc n) (CloseCall t f True) @ replicate k (CloseCall t f False)"
      using nk(2) by (simp add: unfold s1)
    moreover have "isl (fst (cl t f (registry s)))"
      using clr Inl by simp
    then have "\<not> (\<forall>w. \<not> isl (fst (cl t f w)))"
      by blast
    ultimately show ?thesis using nk(1) by blast
  next
    case (Inr u)
    have s1: "?s1 = s\<lparr>registry := w, closes := closes s @ [CloseCall t f False],
                      handles := (handles s)(this := (handles s this)\<lparr>m_fb := None\<rparr>)\<rparr>"
      using clr Inr by (simp add: dtor_holding [OF ft fb])
    have e1: "m_fb (handles ?s1 this) = None" by (simp add: s1)
    have "closes (exercise cl this ops ?s1) = closes ?s1"
      using exercise_emptied [OF e1 rest, of cl] by simp
    then have c: "closes (exercise cl this (op # ops) s) = closes s @ [CloseCall t f False]"
      by (simp add: unfold s1)
    then have "(1::nat) \<le> 1 \<and> closes (exercise cl this (op # ops) s)
                 = closes s @ replicate 0 (CloseCall t f True) @ replicate 1 (CloseCall t f False)"
      by simp
    then have "\<exists>n k. k \<le> 1 \<and> closes (exercise cl this (op # ops) s)
                 = closes s @ replicate n (CloseCall t f True) @ replicate k (CloseCall t f False)"
      by blast
    then show ?thesis using c by simp
  qed
qed

theorem close_fires_once_if_it_returns_witness:
  "handles (world2 2) 0 = \<lparr>m_ft = Some 1, m_fb = Some 7\<rparr> \<and>
   (\<exists>n k. k \<le> 1 \<and> closes (exercise flaky_close 0 [Reset None, Reset None, Drop, Drop] (world2 2))
            = closes (world2 2) @ replicate n (CloseCall 1 7 True) @ replicate k (CloseCall 1 7 False))"
proof -
  have h: "handles (world2 2) 0 = \<lparr>m_ft = Some 1, m_fb = Some 7\<rparr>"
    by (simp add: world2_def ctor_def world0_def)
  have o: "\<forall>op\<in>set [Reset None, Reset None, Drop, Drop]. op = Reset None \<or> op = Drop"
    by simp
  show ?thesis
    using close_fires_once_if_it_returns [OF h o, of flaky_close] h by blast
qed

text \<open>
  Claim C2 as stated fails when close throws out of \<open>reset\<close>: the assignment to
  \<open>m_fb\<close> is skipped, and the drop that follows calls close a second time. Here the
  first close fails and the second returns.
\<close>

theorem close_fires_twice_counterexample:
  "closes (exercise flaky_close 0 [Reset None, Drop] (world2 1))
     = [CloseCall 1 7 True, CloseCall 1 7 False]"
  by (simp add: world2_def ctor_def world0_def flaky_close_def reset_def dtor_def catch_all_def
      call_close_def)

section \<open>Properties of the single-object lock scope\<close>

lemma guard_ctor_holding:
  "get filebase s = Some ob \<Longrightarrow> \<not> held s ob \<Longrightarrow>
   guard_ctor filebase s =
     Inr (\<lparr>fp = filebase\<rparr>, s\<lparr>held := (held s)(ob := True), lock_log := lock_log s @ [Acquire ob]\<rparr>)"
  by (simp add: guard_ctor_def mutex_lock_def Let_def)

text \<open>
  When the handle references the same object \<open>ob\<close> at scope exit as at construction,
  the scope does what is expected of it: the constructor acquires the lock of \<open>ob\<close>
  once, and however the body leaves the scope (\<open>fst (body s1)\<close> is any of the three
  exits) the destructor releases that lock, which is then free.
\<close>

lemma lock_scope_stable_handle:
  assumes "get filebase s = Some ob" and "\<not> held s ob"
      and "s1 = s\<lparr>held := (held s)(ob := True), lock_log := lock_log s @ [Acquire ob]\<rparr>"
      and "get filebase (snd (body s1)) = Some ob"
  shows "guard_ctor filebase s = Inr (\<lparr>fp = filebase\<rparr>, s1) \<and>
         lock_scope filebase body s = Inr (fst (body s1), mutex_unlock ob (snd (body s1))) \<and>
         lock_log (mutex_unlock ob (snd (body s1))) = lock_log (snd (body s1)) @ [Release ob] \<and>
         \<not> held (mutex_unlock ob (snd (body s1))) ob"
proof -
  have c: "guard_ctor filebase s = Inr (\<lparr>fp = filebase\<rparr>, s1)"
    using assms(1,2,3) by (simp add: guard_ctor_holding)
  have d: "guard_dtor \<lparr>fp = filebase\<rparr> (snd (body s1)) = Inr (mutex_unlock ob (snd (body s1)))"
    using assms(4) by (simp add: guard_dtor_def)
  have "lock_scope filebase body s = Inr (fst (body s1), mutex_unlock ob (snd (body s1)))"
    by (simp add: lock_scope_def c d case_prod_beta)
  then show ?thesis using c by (simp add: mutex_unlock_def)
qed

lemma lock_scope_stable_handle_thrown:
  "\<not> isl (lock_scope 0 (body_keep (Thrown ''io'')) (world2 0)) \<and>
   fst (projr (lock_scope 0 (body_keep (Thrown ''io'')) (world2 0))) = Thrown ''io'' \<and>
   \<not> held (snd (projr (lock_scope 0 (body_keep (Thrown ''io'')) (world2 0)))) 7 \<and>
   lock_log (snd (projr (lock_scope 0 (body_keep (Thrown ''io'')) (world2 0)))) = [Acquire 7, Release 7]"
  using lock_scope_stable_handle
          [of 0 "world2 0" 7 
              "(world2 0)\<lparr>held := (held (world2 0))(7 := True), lock_log := lock_log (world2 0) @ [Acquire 7]\<rparr>"
              "body_keep (Thrown ''io'')"]
  by (simp add: world2_def ctor_def world0_def get_def body_keep_def mutex_unlock_def)

text \<open>
  Claim C9. The class is annotated as a scoped capability that acquires
  \<open>filebase->mutex()\<close> in its constructor and releases it in its destructor (lines
  129-145), which is what the claim says: the lock taken at construction is released on
  every exit path. The code misses it when the body re-points the handle: the guard
  keeps a pointer to the handle, not to the file object, and its destructor evaluates
  \<open>fp->get()\<close> again. Handle 0 holds object 7; the body swaps it with handle 1, which
  holds object 8, and falls through. The scope ends normally with the lock of object 7
  still held: the destructor unlocked the mutex of object 8, which this scope never
  locked.
\<close>

theorem lock_scope_swapped_handle_leaves_lock_held:
  "\<not> isl (lock_scope 0 body_swap (world2 0)) \<and>
   held (snd (projr (lock_scope 0 body_swap (world2 0)))) 7 \<and>
   lock_log (snd (projr (lock_scope 0 body_swap (world2 0)))) = [Acquire 7, Release 8]"
  by (simp add: lock_scope_def guard_ctor_def guard_dtor_def get_def mutex_lock_def
      mutex_unlock_def body_swap_def handles_swap swap_frame world2_def ctor_def world0_def Let_def)

text \<open>
  The same defect when the body empties the handle with \<open>release\<close>: the destructor
  dereferences a null pointer and releases nothing.
\<close>

lemma lock_scope_released_handle_faults:
  "lock_scope 0 body_release (world2 0) = Inl NullDereference"
  by (simp add: lock_scope_def guard_ctor_def guard_dtor_def get_def mutex_lock_def
      body_release_def release_def world2_def ctor_def world0_def Let_def)

section \<open>Properties of the registry\<close>

subsection \<open>Configuration queries\<close>

lemma test_bits:
  "bit (6::32 word) (Suc 0)" "bit (6::32 word) 2" "\<not> bit (6::32 word) 0"
  "\<not> bit (5::32 word) (Suc 0)" "bit (5::32 word) 0"
  by simp_all

text \<open>
  Claim C5. Each option mask is one bit. Then \<open>is_readonly\<close> is the read-only bit of
  \<open>m_flags\<close>, \<open>is_auth_enabled\<close> is the negation of the no-authentication bit, and
  \<open>is_time_stored\<close> is the store-time bit. The three queries read nothing but
  \<open>m_flags\<close>, a \<open>const\<close> member: two states of a table with the same flags give the
  same answers, whatever the rest of the table is.
\<close>

theorem config_queries_read_flags:
  assumes "kOptionReadOnly K = push_bit i 1"
      and "kOptionNoAuthentication K = push_bit j 1"
      and "kOptionStoreTime K = push_bit k 1"
  shows "is_readonly K ft = bit (m_flags ft) i \<and>
         is_auth_enabled K ft = (\<not> bit (m_flags ft) j) \<and>
         is_time_stored K ft = bit (m_flags ft) k \<and>
         (m_flags ft' = m_flags ft \<longrightarrow>
            is_readonly K ft' = is_readonly K ft \<and>
            is_auth_enabled K ft' = is_auth_enabled K ft \<and>
            is_time_stored K ft' = is_time_stored K ft)"
  using assms
  by (simp add: is_readonly_def is_auth_enabled_def is_time_stored_def
      bit_iff_and_push_bit_not_eq_0)

theorem config_queries_read_flags_witness:
  "kOptionReadOnly masks0 = push_bit 1 1 \<and>
   kOptionNoAuthentication masks0 = push_bit 0 1 \<and>
   kOptionStoreTime masks0 = push_bit 2 1 \<and>
   is_readonly masks0 (flag_table 6 []) \<and>
   is_auth_enabled masks0 (flag_table 6 []) \<and>
   is_time_stored masks0 (flag_table 6 []) \<and>
   \<not> is_readonly masks0 (flag_table 5 []) \<and>
   \<not> is_auth_enabled masks0 (flag_table 5 []) \<and>
   (m_flags (flag_table 6 [3, 4]) = m_flags (flag_table 6 []) \<and>
    is_readonly masks0 (flag_table 6 [3, 4]) = is_readonly masks0 (flag_table 6 []))"
proof -
  have m: "kOptionReadOnly masks0 = push_bit 1 1" "kOptionNoAuthentication masks0 = push_bit 0 1"
          "kOptionStoreTime masks0 = push_bit 2 1"
    by (simp_all add: masks0_def)
  have f: "m_flags (flag_table 6 [3, 4]) = 6" "m_flags (flag_table 6 []) = 6"
          "m_flags (flag_table 5 []) = 5"
    by (simp_all add: flag_table_def)
  note a = config_queries_read_flags [OF m, of "flag_table 6 []" "flag_table 6 [3, 4]"]
  note b = config_queries_read_flags [OF m, of "flag_table 5 []" "flag_table 5 []"]
  show ?thesis using a b m by (simp add: f test_bits)
qed

subsection \<open>Eviction\<close>

lemma evict_one_fields:
  "m_closed_ids (evict_one fin i ft) = m_closed_ids ft"
  "m_flags (evict_one fin i ft) = m_flags ft"
  "m_files (evict_one fin i ft) = (m_files ft)(i := None)"
  by (auto simp: evict_one_def fun_eq_iff split: option.splits)

lemma evict_one_finalized:
  "m_files ft i = Some fb \<Longrightarrow> finalized (evict_one fin i ft) = finalized ft @ [i]"
  by (simp add: evict_one_def)

lemma evict_all_fields:
  "m_closed_ids (evict_all fin vs ft) = m_closed_ids ft"
  "m_flags (evict_all fin vs ft) = m_flags ft"
  by (induction vs arbitrary: ft) (simp_all add: evict_one_fields)

lemma evict_all_files:
  "m_files (evict_all fin vs ft) j = (if j \<in> set vs then None else m_files ft j)"
  by (induction vs arbitrary: ft) (auto simp: evict_one_fields)

lemma evict_all_finalized:
  "distinct vs \<Longrightarrow> \<forall>v\<in>set vs. m_files ft v \<noteq> None \<Longrightarrow>
   finalized (evict_all fin vs ft) = finalized ft @ vs"
proof (induction vs arbitrary: ft)
  case Nil
  then show ?case by simp
next
  case (Cons v vs)
  from Cons.prems obtain fb where fb: "m_files ft v = Some fb" by auto
  have "\<forall>u\<in>set vs. m_files (evict_one fin v ft) u \<noteq> None"
    using Cons.prems by (auto simp: evict_one_fields)
  with Cons.IH [of "evict_one fin v ft"] Cons.prems(1)
  have "finalized (evict_all fin vs (evict_one fin v ft)) = finalized (evict_one fin v ft) @ vs"
    by simp
  then show ?case by (simp add: evict_one_finalized [OF fb])
qed

lemma eject_fields:
  "m_closed_ids (eject fin ft) = drop (min NUM_EJECT (length (m_closed_ids ft))) (m_closed_ids ft)"
  "m_flags (eject fin ft) = m_flags ft"
  "m_files (eject fin ft) j =
     (if j \<in> set (take (min NUM_EJECT (length (m_closed_ids ft))) (m_closed_ids ft)) then None
      else m_files ft j)"
  by (simp_all add: eject_def Let_def evict_all_fields evict_all_files)

lemma distinct_take_drop_disjoint:
  "distinct xs \<Longrightarrow> set (take n xs) \<inter> set (drop n xs) = {}"
  by (metis append_take_drop_id distinct_append)

lemma eject_idle_ok:
  assumes "idle_ok ft"
  shows "idle_ok (eject fin ft)"
proof -
  let ?n = "min NUM_EJECT (length (m_closed_ids ft))"
  let ?xs = "m_closed_ids ft"
  have d: "distinct ?xs" using assms by (simp add: idle_ok_def)
  have split: "set ?xs = set (take ?n ?xs) \<union> set (drop ?n ?xs)"
    by (metis append_take_drop_id set_append)
  have disj: "set (take ?n ?xs) \<inter> set (drop ?n ?xs) = {}"
    using d by (rule distinct_take_drop_disjoint)
  have "\<And>i. i \<in> set (drop ?n ?xs) \<longleftrightarrow>
            (\<exists>fb. m_files (eject fin ft) i = Some fb \<and> fb_refcount fb = 0)"
  proof -
    fix i
    show "i \<in> set (drop ?n ?xs) \<longleftrightarrow>
            (\<exists>fb. m_files (eject fin ft) i = Some fb \<and> fb_refcount fb = 0)"
    proof (cases "i \<in> set (take ?n ?xs)")
      case True
      then have "i \<notin> set (drop ?n ?xs)" using disj by blast
      then show ?thesis using True by (simp add: eject_fields)
    next
      case False
      then have "i \<in> set (drop ?n ?xs) \<longleftrightarrow> i \<in> set ?xs" using split by blast
      also have "\<dots> \<longleftrightarrow> (\<exists>fb. m_files ft i = Some fb \<and> fb_refcount fb = 0)"
        using assms by (simp add: idle_ok_def)
      finally show ?thesis using False by (simp add: eject_fields)
    qed
  qed
  then show ?thesis using d by (simp add: idle_ok_def eject_fields)
qed

subsection \<open>The idle sequence stays well-formed\<close>

lemma close_cases:
  "m_files ft i = None \<Longrightarrow> close fin ft i = (Inl HandleMisuse, ft)"
  "m_files ft i = Some fb \<Longrightarrow> fb_refcount fb = 0 \<Longrightarrow> close fin ft i = (Inl HandleMisuse, ft)"
  "m_files ft i = Some fb \<Longrightarrow> 1 < fb_refcount fb \<Longrightarrow>
     close fin ft i = (Inr (), ft\<lparr>m_files := (m_files ft)(i \<mapsto> fb\<lparr>fb_refcount := fb_refcount fb - 1\<rparr>)\<rparr>)"
  "m_files ft i = Some fb \<Longrightarrow> fb_refcount fb = 1 \<Longrightarrow> length (m_closed_ids ft) < MAX_NUM_CLOSED \<Longrightarrow>
     close fin ft i = (Inr (), ft\<lparr>m_files := (m_files ft)(i \<mapsto> fb\<lparr>fb_refcount := 0\<rparr>),
                                  m_closed_ids := m_closed_ids ft @ [i]\<rparr>)"
  "m_files ft i = Some fb \<Longrightarrow> fb_refcount fb = 1 \<Longrightarrow> MAX_NUM_CLOSED \<le> length (m_closed_ids ft) \<Longrightarrow>
     close fin ft i = (Inr (), eject fin (ft\<lparr>m_files := (m_files ft)(i \<mapsto> fb\<lparr>fb_refcount := 0\<rparr>),
                                  m_closed_ids := m_closed_ids ft @ [i]\<rparr>))"
  by (simp_all add: close_def Let_def)

lemma idle_ok_deactivate:
  assumes ok: "idle_ok ft" and fb: "m_files ft i = Some fb" and r: "fb_refcount fb = 1"
  shows "idle_ok (ft\<lparr>m_files := (m_files ft)(i \<mapsto> fb\<lparr>fb_refcount := 0\<rparr>),
                     m_closed_ids := m_closed_ids ft @ [i]\<rparr>)"
proof -
  have "i \<notin> set (m_closed_ids ft)" using ok fb r by (auto simp: idle_ok_def)
  then show ?thesis using ok by (auto simp: idle_ok_def)
qed

lemma idle_ok_decrement:
  assumes ok: "idle_ok ft" and fb: "m_files ft i = Some fb" and r: "1 < fb_refcount fb"
  shows "idle_ok (ft\<lparr>m_files := (m_files ft)(i \<mapsto> fb\<lparr>fb_refcount := fb_refcount fb - 1\<rparr>)\<rparr>)"
proof -
  have "i \<notin> set (m_closed_ids ft)" using ok fb r by (auto simp: idle_ok_def)
  then show ?thesis using ok r by (auto simp: idle_ok_def)
qed

lemma close_table_inv:
  assumes "table_inv ft"
  shows "table_inv (snd (close fin ft i))"
proof (cases "m_files ft i")
  case None
  then show ?thesis using assms by (simp add: close_cases)
next
  case (Some fb)
  have ok: "idle_ok ft" and len: "length (m_closed_ids ft) \<le> MAX_NUM_CLOSED"
    using assms by (simp_all add: table_inv_def)
  consider "fb_refcount fb = 0" | "1 < fb_refcount fb"
    | "fb_refcount fb = 1" "length (m_closed_ids ft) < MAX_NUM_CLOSED"
    | "fb_refcount fb = 1" "MAX_NUM_CLOSED \<le> length (m_closed_ids ft)"
    by linarith
  then show ?thesis
  proof cases
    case 1
    then show ?thesis using assms Some by (simp add: close_cases)
  next
    case 2
    then show ?thesis
      using idle_ok_decrement [OF ok Some 2] len by (simp add: close_cases(3) [OF Some] table_inv_def)
  next
    case 3
    then show ?thesis
      using idle_ok_deactivate [OF ok Some 3(1)]
      by (simp add: close_cases(4) [OF Some] table_inv_def)
  next
    case 4
    let ?ft2 = "ft\<lparr>m_files := (m_files ft)(i \<mapsto> fb\<lparr>fb_refcount := 0\<rparr>),
                    m_closed_ids := m_closed_ids ft @ [i]\<rparr>"
    have "idle_ok (eject fin ?ft2)"
      using idle_ok_deactivate [OF ok Some 4(1)] by (rule eject_idle_ok)
    moreover have "length (m_closed_ids (eject fin ?ft2)) \<le> MAX_NUM_CLOSED"
      using len 4(2) by (simp add: eject_fields MAX_NUM_CLOSED_def NUM_EJECT_def)
    ultimately show ?thesis by (simp add: close_cases(5) [OF Some 4] table_inv_def)
  qed
qed

lemma open_or_create_table_inv:
  assumes "table_inv ft"
  shows "table_inv (snd (open_or_create mat ft i ty c))"
proof (cases "m_files ft i")
  case None
  then have "i \<notin> set (m_closed_ids ft)" using assms by (auto simp: table_inv_def idle_ok_def)
  then show ?thesis using assms None
    by (auto simp: open_or_create_def table_inv_def idle_ok_def split: sum.splits)
next
  case (Some fb)
  have d: "distinct (m_closed_ids ft)" using assms by (simp add: table_inv_def idle_ok_def)
  have "length (remove1 i (m_closed_ids ft)) \<le> length (m_closed_ids ft)"
    by (simp add: length_remove1)
  moreover have "length (m_closed_ids ft) \<le> MAX_NUM_CLOSED"
    using assms by (simp add: table_inv_def)
  ultimately have l: "length (remove1 i (m_closed_ids ft)) \<le> MAX_NUM_CLOSED"
    by (rule le_trans)
  show ?thesis
  proof (cases "fb_type fb \<noteq> ty")
    case True
    then show ?thesis using assms Some by (simp add: open_or_create_def)
  next
    case False
    have "table_inv (ft\<lparr>m_closed_ids := remove1 i (m_closed_ids ft),
                  m_files := (m_files ft)(i \<mapsto> fb\<lparr>fb_refcount := fb_refcount fb + 1\<rparr>)\<rparr>)"
      using assms d l by (auto simp: table_inv_def idle_ok_def)
    then show ?thesis using False Some by (simp add: open_or_create_def)
  qed
qed

lemma new_table_inv: "table_inv (new_table k fl bs iv)"
  by (simp add: table_inv_def idle_ok_def new_table_def)

lemma reg_step_table_inv: "table_inv ft \<Longrightarrow> table_inv (reg_step mat fin x ft)"
  by (cases x) (simp_all add: close_table_inv open_or_create_table_inv)

lemma run_ops_table_inv: "table_inv ft \<Longrightarrow> table_inv (run_ops mat fin xs ft)"
  by (induction xs arbitrary: ft) (simp_all add: reg_step_table_inv)

text \<open>No registry operation writes \<open>m_flags\<close>.\<close>

lemma run_ops_flags: "m_flags (run_ops mat fin xs ft) = m_flags ft"
proof (induction xs arbitrary: ft)
  case Nil
  then show ?case by simp
next
  case (Cons x xs)
  have "m_flags (reg_step mat fin x ft) = m_flags ft"
    by (cases x)
       (simp_all add: open_or_create_def close_def Let_def eject_fields
          split: option.splits sum.splits)
  then show ?case by (simp add: Cons.IH)
qed

lemma eject_finalized:
  assumes "idle_ok ft"
  shows "finalized (eject fin ft)
           = finalized ft @ take (min NUM_EJECT (length (m_closed_ids ft))) (m_closed_ids ft)"
proof -
  let ?n = "min NUM_EJECT (length (m_closed_ids ft))"
  let ?vs = "take ?n (m_closed_ids ft)"
  let ?ft = "ft\<lparr>m_closed_ids := drop ?n (m_closed_ids ft)\<rparr>"
  have d: "distinct ?vs" using assms by (simp add: idle_ok_def)
  have "\<forall>v\<in>set (m_closed_ids ft). m_files ft v \<noteq> None"
    using assms by (auto simp: idle_ok_def)
  then have r: "\<forall>v\<in>set ?vs. m_files ?ft v \<noteq> None"
    using set_take_subset [of ?n "m_closed_ids ft"] by auto
  show ?thesis
    using evict_all_finalized [OF d r, of fin] by (simp add: eject_def Let_def)
qed

text \<open>
  Claim C3. From a new registry, after any sequence of open and close calls the idle
  sequence has at most 101 entries, and a close call on a well-formed registry leaves at
  most 101. A close that takes the last reference of an object and makes the idle
  sequence longer than 101 evicts exactly 8 identifiers, the oldest ones: they leave the
  idle sequence, each is removed from the table and finalized, in that order, and no
  other resident object is touched.
\<close>

theorem idle_cache_bound_and_eviction:
  "length (m_closed_ids (run_ops mat fin ops (new_table k fl bs iv))) \<le> 101 \<and>
   (table_inv ft \<longrightarrow> length (m_closed_ids (snd (close fin ft i))) \<le> 101) \<and>
   (table_inv ft \<and> m_files ft i = Some fb \<and> fb_refcount fb = 1 \<and>
    101 < length (m_closed_ids ft @ [i]) \<longrightarrow>
      m_closed_ids (snd (close fin ft i)) = drop 8 (m_closed_ids ft @ [i]) \<and>
      length (take 8 (m_closed_ids ft @ [i])) = 8 \<and>
      finalized (snd (close fin ft i)) = finalized ft @ take 8 (m_closed_ids ft @ [i]) \<and>
      (\<forall>v\<in>set (take 8 (m_closed_ids ft @ [i])). m_files (snd (close fin ft i)) v = None) \<and>
      (\<forall>j. j \<notin> set (take 8 (m_closed_ids ft @ [i])) \<and> j \<noteq> i \<longrightarrow>
           m_files (snd (close fin ft i)) j = m_files ft j))"
proof -
  have reach: "length (m_closed_ids (run_ops mat fin ops (new_table k fl bs iv))) \<le> 101"
    using run_ops_table_inv [OF new_table_inv, of mat fin ops k fl bs iv]
    by (simp add: table_inv_def MAX_NUM_CLOSED_def)
  have step: "table_inv ft \<longrightarrow> length (m_closed_ids (snd (close fin ft i))) \<le> 101"
    using close_table_inv [of ft fin i] by (simp add: table_inv_def MAX_NUM_CLOSED_def)
  have cross: "m_closed_ids (snd (close fin ft i)) = drop 8 (m_closed_ids ft @ [i]) \<and>
      length (take 8 (m_closed_ids ft @ [i])) = 8 \<and>
      finalized (snd (close fin ft i)) = finalized ft @ take 8 (m_closed_ids ft @ [i]) \<and>
      (\<forall>v\<in>set (take 8 (m_closed_ids ft @ [i])). m_files (snd (close fin ft i)) v = None) \<and>
      (\<forall>j. j \<notin> set (take 8 (m_closed_ids ft @ [i])) \<and> j \<noteq> i \<longrightarrow>
           m_files (snd (close fin ft i)) j = m_files ft j)"
    if inv: "table_inv ft" and fb: "m_files ft i = Some fb" and r: "fb_refcount fb = 1"
      and over: "101 < length (m_closed_ids ft @ [i])"
  proof -
    let ?ft2 = "ft\<lparr>m_files := (m_files ft)(i \<mapsto> fb\<lparr>fb_refcount := 0\<rparr>),
                    m_closed_ids := m_closed_ids ft @ [i]\<rparr>"
    have ok: "idle_ok ft" using inv by (simp add: table_inv_def)
    have len: "MAX_NUM_CLOSED \<le> length (m_closed_ids ft)"
      using over by (simp add: MAX_NUM_CLOSED_def)
    have cl: "snd (close fin ft i) = eject fin ?ft2"
      by (simp add: close_cases(5) [OF fb r len])
    have ok2: "idle_ok ?ft2" using ok fb r by (rule idle_ok_deactivate)
    have n: "min NUM_EJECT (length (m_closed_ids ?ft2)) = 8"
      using over by (simp add: NUM_EJECT_def)
    have ids: "m_closed_ids (eject fin ?ft2) = drop 8 (m_closed_ids ft @ [i])"
      using eject_fields(1) [of fin ?ft2] n by simp
    have fin: "finalized (eject fin ?ft2) = finalized ft @ take 8 (m_closed_ids ft @ [i])"
      using eject_finalized [OF ok2, of fin] n by simp
    have files: "m_files (eject fin ?ft2) j =
                   (if j \<in> set (take 8 (m_closed_ids ft @ [i])) then None
                    else ((m_files ft)(i \<mapsto> fb\<lparr>fb_refcount := 0\<rparr>)) j)" for j
      using eject_fields(3) [of fin ?ft2 j] n by simp
    have l8: "length (take 8 (m_closed_ids ft @ [i])) = 8"
      using over by simp
    show ?thesis using ids fin l8 by (simp add: cl files)
  qed
  show ?thesis using reach step cross by blast
qed

lemma idle_table_inv: "n \<le> 101 \<Longrightarrow> table_inv (idle_table n)"
  by (auto simp: table_inv_def idle_ok_def idle_table_def MAX_NUM_CLOSED_def)

theorem idle_cache_bound_and_eviction_witness:
  "table_inv (idle_table 101) \<and>
   m_files (idle_table 101) 101 = Some \<lparr>fb_id = 101, fb_type = 0, fb_addr = 101, fb_refcount = 1\<rparr> \<and>
   101 < length (m_closed_ids (idle_table 101) @ [101]) \<and>
   length (m_closed_ids (snd (close finalize_ok (idle_table 101) 101))) \<le> 101 \<and>
   m_closed_ids (snd (close finalize_ok (idle_table 101) 101)) = drop 8 ([0..<101] @ [101]) \<and>
   finalized (snd (close finalize_ok (idle_table 101) 101)) = take 8 ([0..<101] @ [101]) \<and>
   m_files (snd (close finalize_ok (idle_table 101) 101)) 3 = None"
proof -
  have inv: "table_inv (idle_table 101)" by (rule idle_table_inv) simp
  have fb: "m_files (idle_table 101) 101
              = Some \<lparr>fb_id = 101, fb_type = 0, fb_addr = 101, fb_refcount = 1\<rparr>"
    by (simp add: idle_table_def)
  have ids: "m_closed_ids (idle_table 101) = [0..<101]" "finalized (idle_table 101) = []"
    by (simp_all add: idle_table_def)
  have over: "101 < length (m_closed_ids (idle_table 101) @ [101])"
    by (simp add: ids)
  have three: "(3::nat) \<in> set (take 8 ([0..<101] @ [101]))"
    by (simp add: take_upt)
  note t = idle_cache_bound_and_eviction
             [of materialize_none finalize_ok "[]" "[]" 0 0 0 "idle_table 101" 101
                 "\<lparr>fb_id = 101, fb_type = 0, fb_addr = 101, fb_refcount = 1\<rparr>"]
  show ?thesis using t inv fb over three by (simp add: ids)
qed

subsection \<open>Failures of open and create\<close>

text \<open>
  Claim C4. When the identifier is not resident and the Constructor collaborator finds
  nothing to load (\<open>NotFound\<close>, create being false), open fails with \<open>NotFound\<close>. When the
  resident object's type differs from the declared one, open fails with \<open>TypeMismatch\<close>
  (and create with the \<open>AlreadyExists\<close> condition of the spec). Any failure \<open>e\<close> of the
  Constructor is the failure of the call, unchanged. In each case the registry state is
  the one before the call, and the free functions \<open>open_as\<close> and \<open>create_as\<close> pass
  the failure on without building a handle.
\<close>

theorem open_failures_leave_table_unchanged:
  "(m_files ft i = None \<and> mat i ty False = Inl NotFound \<longrightarrow>
      FileTable_open_as mat ft i ty = (Inl NotFound, ft) \<and>
      open_as mat tbl ft i ty = (Inl NotFound, ft)) \<and>
   (m_files ft i = Some fb \<and> fb_type fb \<noteq> ty \<longrightarrow>
      FileTable_open_as mat ft i ty = (Inl TypeMismatch, ft) \<and>
      open_as mat tbl ft i ty = (Inl TypeMismatch, ft) \<and>
      FileTable_create_as mat ft i ty = (Inl AlreadyExists, ft) \<and>
      create_as mat tbl ft i ty = (Inl AlreadyExists, ft)) \<and>
   (m_files ft i = None \<and> mat i ty False = Inl e \<longrightarrow>
      FileTable_open_as mat ft i ty = (Inl e, ft) \<and>
      open_as mat tbl ft i ty = (Inl e, ft)) \<and>
   (m_files ft i = None \<and> mat i ty True = Inl e \<longrightarrow>
      FileTable_create_as mat ft i ty = (Inl e, ft) \<and>
      create_as mat tbl ft i ty = (Inl e, ft))"
  by (simp add: open_as_def create_as_def FileTable_open_as_def FileTable_create_as_def
      open_or_create_def)

theorem open_failures_leave_table_unchanged_witness:
  "m_files (idle_table 2) 5 = None \<and> materialize_none 5 0 False = Inl NotFound \<and>
   open_as materialize_none 1 (idle_table 2) 5 0 = (Inl NotFound, idle_table 2) \<and>
   m_files (idle_table 2) 1 = Some \<lparr>fb_id = 1, fb_type = 0, fb_addr = 1, fb_refcount = 0\<rparr> \<and>
   fb_type \<lparr>fb_id = 1::nat, fb_type = 0, fb_addr = 1, fb_refcount = 0\<rparr> \<noteq> 2 \<and>
   open_as materialize_any 1 (idle_table 2) 1 2 = (Inl TypeMismatch, idle_table 2) \<and>
   create_as materialize_any 1 (idle_table 2) 1 2 = (Inl AlreadyExists, idle_table 2) \<and>
   materialize_broken 5 0 False = Inl (BackendError ''read failed'') \<and>
   materialize_broken 5 0 True = Inl (BackendError ''read failed'') \<and>
   open_as materialize_broken 1 (idle_table 2) 5 0 = (Inl (BackendError ''read failed''), idle_table 2) \<and>
   create_as materialize_broken 1 (idle_table 2) 5 0 = (Inl (BackendError ''read failed''), idle_table 2)"
proof -
  have absent: "m_files (idle_table 2) 5 = None"
    and res: "m_files (idle_table 2) 1 = Some \<lparr>fb_id = 1, fb_type = 0, fb_addr = 1, fb_refcount = 0\<rparr>"
    by (simp_all add: idle_table_def)
  have m: "materialize_none 5 0 False = Inl NotFound"
          "materialize_broken 5 0 False = Inl (BackendError ''read failed'')"
          "materialize_broken 5 0 True = Inl (BackendError ''read failed'')"
    by (simp_all add: materialize_none_def materialize_broken_def)
  note a = open_failures_leave_table_unchanged
             [of "idle_table 2" 5 materialize_none 0 1
                 "\<lparr>fb_id = 1, fb_type = 0, fb_addr = 1, fb_refcount = 0\<rparr>" NotFound]
  note b = open_failures_leave_table_unchanged
             [of "idle_table 2" 1 materialize_any 2 1
                 "\<lparr>fb_id = 1, fb_type = 0, fb_addr = 1, fb_refcount = 0\<rparr>" NotFound]
  note c = open_failures_leave_table_unchanged
             [of "idle_table 2" 5 materialize_broken 0 1
                 "\<lparr>fb_id = 1, fb_type = 0, fb_addr = 1, fb_refcount = 0\<rparr>"
                 "BackendError ''read failed''"]
  show ?thesis using a b c absent res m by simp
qed

end
